theory Spec2Isabelle
  imports Main "HOL-Library.Word"
begin

section \<open>The barrel duel of src/main.cpp\<close>

text \<open>
  Two M5Stack devices play over BLE. One is the shooter (BLE server), the other the dodger
  (BLE client). The program is a set of global variables, the BLE callbacks that write some
  of them, and \<open>loop()\<close>, which reads the touch screen and drives one state machine per
  role.

  The model is a record of the globals and one function per C++ function. Every function
  takes the state and returns the new one. A call of \<open>loop()\<close> and a call of a callback
  are each one atomic step; the steps of one device interleave in any order. Drawing on
  the display, logging to the serial port and the \<open>delay(1500)\<close> of the result screen
  change no global and are left out; of \<open>drawGameOverScreen\<close> the model keeps the verdict
  string.

  Values of C type \<open>int\<close> are modelled as \<open>int\<close>. The only arithmetic the program does on
  them is \<open>roundNumber++\<close>, and \<open>roundNumber\<close> stays within 1..5 in every execution
  (lemma \<open>run_roundNumber_bounds\<close>), so no wrap-around is lost. \<open>unsigned long\<close> is 32
  bits wide on the target and is modelled as \<open>32 word\<close>, so the debounce test
  \<open>millis() - lastTouchTime < touchDebounce\<close> wraps as it does in C.

  The file holds two revisions of the sketch. They differ in logging and in how a touch is
  read; the game logic is the same. The model follows the first revision (lines 1 to 505).
\<close>

subsection \<open>Constants\<close>

definition MAX_ROUNDS :: int where
  "MAX_ROUNDS = 5"


definition screenWidth :: int where
  "screenWidth = 320"

definition buttonWidth :: int where
  "buttonWidth = 80"

definition buttonHeight :: int where
  "buttonHeight = 50"

definition buttonSpacing :: int where
  "buttonSpacing = 20"

definition buttonY :: int where
  "buttonY = 180"

definition button1X :: int where
  "button1X = 40"

definition button2X :: int where
  "button2X = button1X + buttonWidth + buttonSpacing"

definition button3X :: int where
  "button3X = button2X + buttonWidth + buttonSpacing"

definition touchDebounce :: "32 word" where
  "touchDebounce = 300"

subsection \<open>The globals\<close>

datatype Role = ROLE_UNDEFINED | ROLE_SHOOTER | ROLE_DODGER

datatype ShooterState =
  SHOOTER_WAIT_DODGER | SHOOTER_WAIT_INPUT | SHOOTER_SHOW_RESULT | SHOOTER_GAME_OVER

datatype DodgerState =
  DODGER_WAIT_INPUT | DODGER_WAIT_SHOT | DODGER_SHOW_RESULT | DODGER_GAME_OVER

text \<open>
  The fields keep the names of the globals. \<open>remoteCharPresent\<close> stands for
  \<open>pRemoteCharacteristic != nullptr\<close>. The last two fields record the effect on the
  channel: \<open>notified\<close> lists the values passed to \<open>pCharacteristic->notify()\<close> and
  \<open>written\<close> the values passed to \<open>pRemoteCharacteristic->writeValue()\<close>, oldest first.
\<close>

record game =
  deviceRole :: Role
  shooterState :: ShooterState
  dodgerState :: DodgerState
  roundNumber :: int
  gameOver :: bool
  roundResultSafe :: bool
  dodgerChoice :: int
  shooterChoice :: int
  deviceConnected :: bool
  dodgerInputReceived :: bool
  notificationReceived :: bool
  receivedShooterChoice :: int
  remoteCharPresent :: bool
  lastTouchTime :: "32 word"
  notified :: "string list"
  written :: "string list"

text \<open>The values the globals are initialised with (lines 20 to 75).\<close>

definition globals_init :: game where
  "globals_init =
     \<lparr> deviceRole = ROLE_UNDEFINED,
       shooterState = SHOOTER_WAIT_DODGER,
       dodgerState = DODGER_WAIT_INPUT,
       roundNumber = 1,
       gameOver = False,
       roundResultSafe = False,
       dodgerChoice = 0,
       shooterChoice = 0,
       deviceConnected = False,
       dodgerInputReceived = False,
       notificationReceived = False,
       receivedShooterChoice = 0,
       remoteCharPresent = False,
       lastTouchTime = 0,
       notified = [],
       written = [] \<rparr>"

subsection \<open>The wire format: \<open>sprintf("%d")\<close> and \<open>atoi\<close>\<close>

text \<open>
  Both are functions of the C library, modelled from the C standard. \<open>sprintf_d\<close> is the
  \<open>%d\<close> conversion: a minus sign for a negative value, then the decimal digits with no
  leading zero. \<open>atoi\<close> skips leading white space, reads an optional sign and the longest
  run of decimal digits, and returns 0 when there is no digit. What \<open>atoi\<close> returns for a
  value outside the range of \<open>int\<close> is undefined in C; the model returns the value.
\<close>

definition digit_char :: "nat \<Rightarrow> char" where
  "digit_char d = char_of (48 + d)"

fun dec_digits :: "nat \<Rightarrow> string" where
  "dec_digits n =
     (if n < 10 then [digit_char n] else dec_digits (n div 10) @ [digit_char (n mod 10)])"

declare dec_digits.simps [simp del]

definition sprintf_d :: "int \<Rightarrow> string" where
  "sprintf_d i = (if i < 0 then CHR ''-'' # dec_digits (nat (- i)) else dec_digits (nat i))"

definition isspace :: "char \<Rightarrow> bool" where
  "isspace c = (of_char c \<in> {32, 9, 10, 11, 12, 13 :: nat})"

definition isdigit :: "char \<Rightarrow> bool" where
  "isdigit c = (48 \<le> (of_char c :: nat) \<and> (of_char c :: nat) \<le> 57)"

fun atoi_digits :: "int \<Rightarrow> string \<Rightarrow> int" where
  "atoi_digits acc [] = acc"
| "atoi_digits acc (c # cs) =
     (if isdigit c then atoi_digits (acc * 10 + (of_char c - 48)) cs else acc)"

definition atoi :: "string \<Rightarrow> int" where
  "atoi s =
     (case dropWhile isspace s of
        [] \<Rightarrow> 0
      | c # cs \<Rightarrow>
          if c = CHR ''-'' then - atoi_digits 0 cs
          else if c = CHR ''+'' then atoi_digits 0 cs
          else atoi_digits 0 (c # cs))"

subsection \<open>The BLE callbacks\<close>

text \<open>
  \<open>MyCharacteristicCallbacks::onWrite\<close> (lines 98 to 109) runs on the shooter when the
  dodger writes the characteristic; \<open>rxValue\<close> is the payload. \<open>notifyCallback\<close>
  (lines 112 to 120) runs on the dodger when the shooter notifies; the payload is the
  \<open>length\<close> bytes at \<open>pData\<close>, and the model takes the byte after them to end the
  number, as a terminating NUL does. \<open>MyServerCallbacks\<close> (lines 86 to 96) keeps
  \<open>deviceConnected\<close>.
\<close>

definition onWrite :: "string \<Rightarrow> game \<Rightarrow> game" where
  "onWrite rxValue g =
     (if length rxValue > 0
      then g\<lparr> dodgerChoice := atoi rxValue, dodgerInputReceived := True \<rparr>
      else g)"

definition notifyCallback :: "string \<Rightarrow> game \<Rightarrow> game" where
  "notifyCallback pData g =
     (if length pData > 0
      then g\<lparr> receivedShooterChoice := atoi pData, notificationReceived := True \<rparr>
      else g)"

definition onConnect :: "game \<Rightarrow> game" where
  "onConnect g = g\<lparr> deviceConnected := True \<rparr>"

definition onDisconnect :: "game \<Rightarrow> game" where
  "onDisconnect g = g\<lparr> deviceConnected := False \<rparr>"

subsection \<open>\<open>resetGame\<close>, \<open>setup\<close> and \<open>drawGameOverScreen\<close>\<close>

definition resetGame :: "game \<Rightarrow> game" where
  "resetGame g =
     g\<lparr> roundNumber := 1,
        gameOver := False,
        roundResultSafe := False,
        dodgerChoice := 0,
        shooterChoice := 0,
        dodgerInputReceived := False,
        notificationReceived := False,
        receivedShooterChoice := 0 \<rparr>"

text \<open>
  The state at the end of \<open>setup()\<close> (lines 122 to 171). Its parameters are what the
  outside world decided meanwhile: the role the user touched (the waiting loop ends only
  once it is the shooter or the dodger), whether a client has connected to the server,
  whether \<open>setupBLE_Client\<close> found the characteristic, and the time of the role touch.
  \<open>setup()\<close> ends with \<open>resetGame()\<close>.
\<close>

definition setup_state :: "Role \<Rightarrow> bool \<Rightarrow> bool \<Rightarrow> 32 word \<Rightarrow> game" where
  "setup_state role connected found t0 =
     resetGame
       (if role = ROLE_SHOOTER
        then globals_init\<lparr> deviceRole := role, shooterState := SHOOTER_WAIT_DODGER,
               deviceConnected := connected, lastTouchTime := t0 \<rparr>
        else globals_init\<lparr> deviceRole := role, dodgerState := DODGER_WAIT_INPUT,
               remoteCharPresent := found, lastTouchTime := t0 \<rparr>)"

text \<open>
  The string \<open>result\<close> that \<open>drawGameOverScreen\<close> (lines 405 to 420) prints under
  "Game Over", as a function of \<open>deviceRole\<close> and \<open>roundResultSafe\<close>.
\<close>

definition gameOverResult :: "Role \<Rightarrow> bool \<Rightarrow> string" where
  "gameOverResult role safe =
     (if role = ROLE_SHOOTER
      then (if \<not> safe then ''You Win!'' else ''You Lose!'')
      else (if \<not> safe then ''You Lose!'' else ''You Win!''))"

subsection \<open>One call of \<open>loop()\<close>\<close>

text \<open>
  What \<open>loop()\<close> reads from the outside in one call: the first touch point when
  \<open>M5.Touch.getCount() > 0\<close>, and the two readings of \<open>millis()\<close>.
\<close>

record touch_detail =
  touch_x :: int
  touch_y :: int
  wasClicked :: bool

record tick =
  touch :: "touch_detail option"
  millis_check :: "32 word"
  millis_store :: "32 word"

definition inButton :: "int \<Rightarrow> touch_detail \<Rightarrow> bool" where
  "inButton bx d =
     (touch_x d \<ge> bx \<and> touch_x d \<le> bx + buttonWidth \<and>
      touch_y d \<ge> buttonY \<and> touch_y d \<le> buttonY + buttonHeight)"

text \<open>
  The chain of three rectangle tests (lines 196 to 205 and 270 to 279). It assigns the
  choice variable when a button is hit and leaves it as it was otherwise.
\<close>

definition selectBarrel :: "touch_detail \<Rightarrow> int \<Rightarrow> int" where
  "selectBarrel d choice =
     (if inButton button1X d then 1
      else if inButton button2X d then 2
      else if inButton button3X d then 3
      else choice)"

definition inRestartButton :: "touch_detail \<Rightarrow> bool" where
  "inRestartButton d =
     (touch_x d > screenWidth div 2 - 60 \<and> touch_x d < screenWidth div 2 + 60 \<and>
      touch_y d > 120 \<and> touch_y d < 160)"

text \<open>
  The touch that passes \<open>getCount() > 0\<close>, \<open>wasClicked()\<close> and the debounce test, if
  there is one. On a touch that fails the debounce test \<open>loop()\<close> returns at once.
\<close>

definition acceptedTouch :: "tick \<Rightarrow> game \<Rightarrow> touch_detail option" where
  "acceptedTouch t g =
     (case touch t of
        None \<Rightarrow> None
      | Some d \<Rightarrow>
          if \<not> wasClicked d then None
          else if millis_check t - lastTouchTime g < touchDebounce then None
          else Some d)"

definition shooter_wait_input :: "tick \<Rightarrow> game \<Rightarrow> game" where
  "shooter_wait_input t g =
     (case acceptedTouch t g of
        None \<Rightarrow> g
      | Some d \<Rightarrow>
          let g1 = g\<lparr> lastTouchTime := millis_store t,
                      shooterChoice := selectBarrel d (shooterChoice g) \<rparr>
          in if shooterChoice g1 \<ge> 1 \<and> shooterChoice g1 \<le> 3
             then
               let g2 = (if shooterChoice g1 \<noteq> dodgerChoice g1
                         then g1\<lparr> roundResultSafe := False, gameOver := True \<rparr>
                         else g1\<lparr> roundResultSafe := True \<rparr>);
                   g3 = (if deviceConnected g2
                         then g2\<lparr> notified := notified g2 @ [sprintf_d (shooterChoice g2)] \<rparr>
                         else g2)
               in g3\<lparr> shooterState := SHOOTER_SHOW_RESULT \<rparr>
             else g1)"

definition shooter_show_result :: "game \<Rightarrow> game" where
  "shooter_show_result g =
     (if gameOver g \<or> (roundNumber g \<ge> MAX_ROUNDS \<and> roundResultSafe g)
      then g\<lparr> shooterState := SHOOTER_GAME_OVER \<rparr>
      else g\<lparr> roundNumber := roundNumber g + 1, shooterState := SHOOTER_WAIT_DODGER \<rparr>)"

definition shooter_game_over :: "tick \<Rightarrow> game \<Rightarrow> game" where
  "shooter_game_over t g =
     (case acceptedTouch t g of
        None \<Rightarrow> g
      | Some d \<Rightarrow>
          let g1 = g\<lparr> lastTouchTime := millis_store t \<rparr>
          in if inRestartButton d
             then (resetGame g1)\<lparr> shooterState := SHOOTER_WAIT_DODGER \<rparr>
             else g1)"

definition dodger_wait_input :: "tick \<Rightarrow> game \<Rightarrow> game" where
  "dodger_wait_input t g =
     (case acceptedTouch t g of
        None \<Rightarrow> g
      | Some d \<Rightarrow>
          let g1 = g\<lparr> lastTouchTime := millis_store t,
                      dodgerChoice := selectBarrel d (dodgerChoice g) \<rparr>
          in if dodgerChoice g1 \<ge> 1 \<and> dodgerChoice g1 \<le> 3
             then
               let g2 = (if remoteCharPresent g1
                         then g1\<lparr> written := written g1 @ [sprintf_d (dodgerChoice g1)] \<rparr>
                         else g1)
               in g2\<lparr> dodgerState := DODGER_WAIT_SHOT \<rparr>
             else g1)"

definition dodger_wait_shot :: "game \<Rightarrow> game" where
  "dodger_wait_shot g =
     (if notificationReceived g
      then
        let g1 = g\<lparr> notificationReceived := False \<rparr>;
            g2 = (if receivedShooterChoice g1 \<noteq> dodgerChoice g1
                  then g1\<lparr> roundResultSafe := False, gameOver := True \<rparr>
                  else g1\<lparr> roundResultSafe := True \<rparr>)
        in g2\<lparr> dodgerState := DODGER_SHOW_RESULT \<rparr>
      else g)"

definition dodger_show_result :: "game \<Rightarrow> game" where
  "dodger_show_result g =
     (if gameOver g \<or> (roundNumber g \<ge> MAX_ROUNDS \<and> roundResultSafe g)
      then g\<lparr> dodgerState := DODGER_GAME_OVER \<rparr>
      else g\<lparr> roundNumber := roundNumber g + 1, dodgerState := DODGER_WAIT_INPUT \<rparr>)"

definition dodger_game_over :: "tick \<Rightarrow> game \<Rightarrow> game" where
  "dodger_game_over t g =
     (case acceptedTouch t g of
        None \<Rightarrow> g
      | Some d \<Rightarrow>
          let g1 = g\<lparr> lastTouchTime := millis_store t \<rparr>
          in if inRestartButton d
             then (resetGame g1)\<lparr> dodgerState := DODGER_WAIT_INPUT \<rparr>
             else g1)"

text \<open>\<open>loop()\<close> (lines 173 to 336): the branch of the role, then the branch of its state.\<close>

definition loop :: "tick \<Rightarrow> game \<Rightarrow> game" where
  "loop t g =
     (if deviceRole g = ROLE_SHOOTER then
        (case shooterState g of
           SHOOTER_WAIT_DODGER \<Rightarrow>
             if dodgerInputReceived g
             then g\<lparr> shooterState := SHOOTER_WAIT_INPUT, dodgerInputReceived := False \<rparr>
             else g
         | SHOOTER_WAIT_INPUT \<Rightarrow> shooter_wait_input t g
         | SHOOTER_SHOW_RESULT \<Rightarrow> shooter_show_result g
         | SHOOTER_GAME_OVER \<Rightarrow> shooter_game_over t g)
      else if deviceRole g = ROLE_DODGER then
        (case dodgerState g of
           DODGER_WAIT_INPUT \<Rightarrow> dodger_wait_input t g
         | DODGER_WAIT_SHOT \<Rightarrow> dodger_wait_shot g
         | DODGER_SHOW_RESULT \<Rightarrow> dodger_show_result g
         | DODGER_GAME_OVER \<Rightarrow> dodger_game_over t g)
      else g)"

subsection \<open>Executions of one device\<close>

text \<open>
  After \<open>setup()\<close> a device runs \<open>loop()\<close> again and again, and the BLE stack calls the
  callbacks in between. The server callbacks are installed by \<open>setupBLE_Server\<close> only, so
  they run on the shooter. \<open>notifyCallback\<close> is registered by \<open>setupBLE_Client\<close> only
  after the characteristic was found, so it runs on a dodger whose handle is present.
\<close>

datatype event =
  Loop tick
| OnWrite string
| NotifyCallback string
| OnConnect
| OnDisconnect

fun step :: "event \<Rightarrow> game \<Rightarrow> game" where
  "step (Loop t) g = loop t g"
| "step (OnWrite rxValue) g = onWrite rxValue g"
| "step (NotifyCallback pData) g = notifyCallback pData g"
| "step OnConnect g = onConnect g"
| "step OnDisconnect g = onDisconnect g"

fun enabled :: "event \<Rightarrow> game \<Rightarrow> bool" where
  "enabled (Loop t) g = True"
| "enabled (OnWrite rxValue) g = (deviceRole g = ROLE_SHOOTER)"
| "enabled (NotifyCallback pData) g = (deviceRole g = ROLE_DODGER \<and> remoteCharPresent g)"
| "enabled OnConnect g = (deviceRole g = ROLE_SHOOTER)"
| "enabled OnDisconnect g = (deviceRole g = ROLE_SHOOTER)"

text \<open>
  \<open>run es g\<close> is the state after the events \<open>es\<close> from \<open>g\<close>, and \<open>None\<close> when one of
  them cannot happen where it stands.
\<close>

fun run :: "event list \<Rightarrow> game \<Rightarrow> game option" where
  "run [] g = Some g"
| "run (e # es) g = (if enabled e g then run es (step e g) else None)"

subsection \<open>Phases, the restart touch and sample inputs\<close>

text \<open>
  \<open>showing\<close> holds while the device of either role shows the result of a round, and
  \<open>finished\<close> while it shows the game-over screen.
\<close>

definition showing :: "game \<Rightarrow> bool" where
  "showing g =
     (deviceRole g = ROLE_SHOOTER \<and> shooterState g = SHOOTER_SHOW_RESULT \<or>
      deviceRole g = ROLE_DODGER \<and> dodgerState g = DODGER_SHOW_RESULT)"

definition finished :: "game \<Rightarrow> bool" where
  "finished g =
     (deviceRole g = ROLE_SHOOTER \<and> shooterState g = SHOOTER_GAME_OVER \<or>
      deviceRole g = ROLE_DODGER \<and> dodgerState g = DODGER_GAME_OVER)"

text \<open>
  The condition under which \<open>loop()\<close> calls \<open>resetGame()\<close> (lines 241 to 256 and 320 to
  333): the device shows the game-over screen and an accepted touch lies in the restart
  button.
\<close>

definition restartPressed :: "event \<Rightarrow> game \<Rightarrow> bool" where
  "restartPressed e g =
     (case e of
        Loop t \<Rightarrow>
          (case acceptedTouch t g of
             None \<Rightarrow> False
           | Some d \<Rightarrow> finished g \<and> inRestartButton d)
      | _ \<Rightarrow> False)"

text \<open>
  \<open>steps es g\<close> applies the events \<open>es\<close> to \<open>g\<close> one after the other. It is the state
  that \<open>run es g\<close> returns when every event can happen where it stands.
\<close>

fun steps :: "event list \<Rightarrow> game \<Rightarrow> game" where
  "steps [] g = g"
| "steps (e # es) g = steps es (step e g)"

text \<open>
  Sample devices after \<open>setup()\<close>: a shooter with a client connected, and a dodger that
  found the characteristic.
\<close>

definition shooter_start :: game where
  "shooter_start = setup_state ROLE_SHOOTER True False 0"

definition dodger_start :: game where
  "dodger_start = setup_state ROLE_DODGER False True 0"

text \<open>Sample inputs: a call of \<open>loop()\<close> with no touch, and one with a click at a point.\<close>

definition idle :: "32 word \<Rightarrow> tick" where
  "idle now = \<lparr> touch = None, millis_check = now, millis_store = now \<rparr>"

definition tap :: "int \<Rightarrow> int \<Rightarrow> 32 word \<Rightarrow> tick" where
  "tap px py now =
     \<lparr> touch = Some \<lparr> touch_x = px, touch_y = py, wasClicked = True \<rparr>,
       millis_check = now, millis_store = now \<rparr>"

definition dodger_lost_game :: "event list" where
  "dodger_lost_game =
     [Loop (tap 150 200 1000), NotifyCallback ''1'', Loop (idle 1000), Loop (idle 3000)]"

definition shooter_won_game :: "event list" where
  "shooter_won_game =
     [OnWrite ''2'', Loop (idle 0), Loop (tap 50 200 1000), Loop (idle 3000)]"

subsection \<open>Observing the order of the exchange\<close>

text \<open>
  The shooter accepts a selection in the step that takes it from \<open>SHOOTER_WAIT_INPUT\<close> to
  \<open>SHOOTER_SHOW_RESULT\<close>; \<open>acceptedSelections\<close> counts these steps along a list of events.
  A choice of the dodger is delivered by a call of \<open>onWrite\<close> with a payload that is not
  empty; \<open>receivedChoices\<close> counts them. The dodger observes the shooter's choice in the
  step that takes it from \<open>DODGER_WAIT_SHOT\<close> to \<open>DODGER_SHOW_RESULT\<close>; \<open>observedShots\<close>
  counts these.
\<close>

definition shooterAccepts :: "event \<Rightarrow> game \<Rightarrow> bool" where
  "shooterAccepts e g =
     (deviceRole g = ROLE_SHOOTER \<and> shooterState g = SHOOTER_WAIT_INPUT \<and>
      shooterState (step e g) = SHOOTER_SHOW_RESULT)"

fun acceptedSelections :: "event list \<Rightarrow> game \<Rightarrow> nat" where
  "acceptedSelections [] g = 0"
| "acceptedSelections (e # es) g =
     (if shooterAccepts e g then 1 else 0) + acceptedSelections es (step e g)"

fun delivers :: "event \<Rightarrow> bool" where
  "delivers (OnWrite rxValue) = (length rxValue > 0)"
| "delivers e = False"

fun receivedChoices :: "event list \<Rightarrow> nat" where
  "receivedChoices [] = 0"
| "receivedChoices (e # es) = (if delivers e then 1 else 0) + receivedChoices es"

definition dodgerObserves :: "event \<Rightarrow> game \<Rightarrow> bool" where
  "dodgerObserves e g =
     (deviceRole g = ROLE_DODGER \<and> dodgerState g = DODGER_WAIT_SHOT \<and>
      dodgerState (step e g) = DODGER_SHOW_RESULT)"

fun observedShots :: "event list \<Rightarrow> game \<Rightarrow> nat" where
  "observedShots [] g = 0"
| "observedShots (e # es) g =
     (if dodgerObserves e g then 1 else 0) + observedShots es (step e g)"

text \<open>
  The choices the shooter may still use: one while it waits for its own input, one while
  the latch \<open>dodgerInputReceived\<close> is set. And whether the dodger waits for the shot.
\<close>

definition shooterPending :: "game \<Rightarrow> nat" where
  "shooterPending g =
     (if shooterState g = SHOOTER_WAIT_INPUT then 1 else 0) +
     (if dodgerInputReceived g then 1 else 0)"

definition dodgerWaiting :: "game \<Rightarrow> nat" where
  "dodgerWaiting g = (if dodgerState g = DODGER_WAIT_SHOT then 1 else 0)"

subsection \<open>The invariant of the round flags\<close>

text \<open>
  What every execution keeps true of the round flags: \<open>gameOver\<close> is set only with the
  round marked unsafe and only while a result or the game-over screen is shown; on those
  screens the round is either lost or safe; and the round number stays within 1..5.
\<close>

definition round_inv :: "game \<Rightarrow> bool" where
  "round_inv g =
     ((gameOver g \<longrightarrow> \<not> roundResultSafe g \<and> (showing g \<or> finished g)) \<and>
      (showing g \<or> finished g \<longrightarrow> gameOver g \<or> roundResultSafe g) \<and>
      1 \<le> roundNumber g \<and> roundNumber g \<le> MAX_ROUNDS)"


section \<open>The state machines\<close>

lemmas loop_defs =
  loop_def shooter_wait_input_def shooter_show_result_def shooter_game_over_def
  dodger_wait_input_def dodger_wait_shot_def dodger_show_result_def dodger_game_over_def
  resetGame_def Let_def

lemmas callback_defs = onWrite_def notifyCallback_def onConnect_def onDisconnect_def

subsection \<open>The flags of a round in every execution\<close>

lemmas phase_defs = round_inv_def showing_def finished_def

lemma shooter_wait_dodger_inv:
  "round_inv g \<Longrightarrow> deviceRole g = ROLE_SHOOTER \<Longrightarrow> shooterState g = SHOOTER_WAIT_DODGER \<Longrightarrow>
     round_inv (loop t g)"
  by (simp add: loop_def phase_defs)

lemma shooter_wait_input_inv:
  "round_inv g \<Longrightarrow> deviceRole g = ROLE_SHOOTER \<Longrightarrow> shooterState g = SHOOTER_WAIT_INPUT \<Longrightarrow>
     round_inv (loop t g)"
  by (simp add: loop_def shooter_wait_input_def Let_def phase_defs split: option.splits)

lemma shooter_show_result_inv:
  "round_inv g \<Longrightarrow> deviceRole g = ROLE_SHOOTER \<Longrightarrow> shooterState g = SHOOTER_SHOW_RESULT \<Longrightarrow>
     round_inv (loop t g)"
  by (auto simp: loop_def shooter_show_result_def phase_defs MAX_ROUNDS_def)

lemma shooter_game_over_inv:
  "round_inv g \<Longrightarrow> deviceRole g = ROLE_SHOOTER \<Longrightarrow> shooterState g = SHOOTER_GAME_OVER \<Longrightarrow>
     round_inv (loop t g)"
  by (simp add: loop_def shooter_game_over_def resetGame_def Let_def phase_defs MAX_ROUNDS_def
      split: option.splits)

lemma dodger_wait_input_inv:
  "round_inv g \<Longrightarrow> deviceRole g = ROLE_DODGER \<Longrightarrow> dodgerState g = DODGER_WAIT_INPUT \<Longrightarrow>
     round_inv (loop t g)"
  by (simp add: loop_def dodger_wait_input_def Let_def phase_defs split: option.splits)

lemma dodger_wait_shot_inv:
  "round_inv g \<Longrightarrow> deviceRole g = ROLE_DODGER \<Longrightarrow> dodgerState g = DODGER_WAIT_SHOT \<Longrightarrow>
     round_inv (loop t g)"
  by (simp add: loop_def dodger_wait_shot_def Let_def phase_defs)

lemma dodger_show_result_inv:
  "round_inv g \<Longrightarrow> deviceRole g = ROLE_DODGER \<Longrightarrow> dodgerState g = DODGER_SHOW_RESULT \<Longrightarrow>
     round_inv (loop t g)"
  by (auto simp: loop_def dodger_show_result_def phase_defs MAX_ROUNDS_def)

lemma dodger_game_over_inv:
  "round_inv g \<Longrightarrow> deviceRole g = ROLE_DODGER \<Longrightarrow> dodgerState g = DODGER_GAME_OVER \<Longrightarrow>
     round_inv (loop t g)"
  by (simp add: loop_def dodger_game_over_def resetGame_def Let_def phase_defs MAX_ROUNDS_def
      split: option.splits)

lemma loop_round_inv: "round_inv g \<Longrightarrow> round_inv (loop t g)"
proof (cases "deviceRole g")
  case ROLE_UNDEFINED
  then show "round_inv g \<Longrightarrow> round_inv (loop t g)" by (simp add: loop_def)
next
  case ROLE_SHOOTER
  then show "round_inv g \<Longrightarrow> round_inv (loop t g)"
    using shooter_wait_dodger_inv shooter_wait_input_inv shooter_show_result_inv
      shooter_game_over_inv
    by (cases "shooterState g") blast+
next
  case ROLE_DODGER
  then show "round_inv g \<Longrightarrow> round_inv (loop t g)"
    using dodger_wait_input_inv dodger_wait_shot_inv dodger_show_result_inv
      dodger_game_over_inv
    by (cases "dodgerState g") blast+
qed

lemma step_round_inv: "round_inv g \<Longrightarrow> round_inv (step e g)"
proof (cases e)
  case (Loop t)
  then show "round_inv g \<Longrightarrow> round_inv (step e g)" by (simp add: loop_round_inv)
qed (simp_all add: callback_defs phase_defs)

lemma run_round_inv: "round_inv g \<Longrightarrow> run es g = Some g' \<Longrightarrow> round_inv g'"
proof (induction es arbitrary: g)
  case Nil
  then show ?case by simp
next
  case (Cons e es)
  from Cons.prems(2) have "run es (step e g) = Some g'"
    by (simp split: if_splits)
  with Cons.IH [OF step_round_inv [OF Cons.prems(1)]] show ?case .
qed

lemma setup_round_inv: "round_inv (setup_state role connected found t0)"
  by (simp add: setup_state_def resetGame_def globals_init_def round_inv_def showing_def
      finished_def MAX_ROUNDS_def)

lemma run_roundNumber_bounds:
  "run es (setup_state role connected found t0) = Some g \<Longrightarrow>
     1 \<le> roundNumber g \<and> roundNumber g \<le> MAX_ROUNDS"
  using run_round_inv [OF setup_round_inv] by (simp add: round_inv_def)


lemma run_steps: "run es g = Some g' \<Longrightarrow> g' = steps es g"
  by (induction es arbitrary: g) (simp_all split: if_splits)

subsection \<open>How a round is resolved\<close>

text \<open>
  Claim C1 says that a round is unsafe for the dodger exactly when the shooter's barrel
  equals the dodger's barrel. The code compares the other way round (lines 210 to 215 and
  301 to 306). Evaluated on the program: the dodger hides in barrel 2 and the shooter
  shoots barrel 2, and the round is marked safe with \<open>gameOver\<close> left false, on the shooter
  and on the dodger; the dodger hides in barrel 2 and the shooter shoots barrel 1, and the
  round is marked unsafe with \<open>gameOver\<close> set, on both. Each run below is an execution
  from the end of \<open>setup()\<close>, and the tuple lists \<open>dodgerChoice\<close>, the shooter's choice as
  the device knows it, \<open>roundResultSafe\<close> and \<open>gameOver\<close>.
\<close>

theorem equal_barrels_marked_safe:
  "map_option (\<lambda>g. (dodgerChoice g, shooterChoice g, roundResultSafe g, gameOver g))
     (run [OnWrite ''2'', Loop (idle 0), Loop (tap 150 200 1000)] shooter_start)
     = Some (2, 2, True, False)
   \<and> map_option (\<lambda>g. (dodgerChoice g, shooterChoice g, roundResultSafe g, gameOver g))
     (run [OnWrite ''2'', Loop (idle 0), Loop (tap 50 200 1000)] shooter_start)
     = Some (2, 1, False, True)
   \<and> map_option (\<lambda>g. (dodgerChoice g, receivedShooterChoice g, roundResultSafe g, gameOver g))
     (run [Loop (tap 150 200 1000), NotifyCallback ''2'', Loop (idle 1000)] dodger_start)
     = Some (2, 2, True, False)
   \<and> map_option (\<lambda>g. (dodgerChoice g, receivedShooterChoice g, roundResultSafe g, gameOver g))
     (run [Loop (tap 150 200 1000), NotifyCallback ''1'', Loop (idle 1000)] dodger_start)
     = Some (2, 1, False, True)"
  by code_simp

subsection \<open>When a session ends\<close>

text \<open>
  Claim C2. When \<open>loop()\<close> runs in the show-result state of either role, the state machine
  moves to the game-over state if and only if \<open>gameOver\<close> is set, or \<open>roundNumber\<close> has
  reached \<open>MAX_ROUNDS\<close> (5) and the last round was safe. In that case the round number is
  kept. Otherwise the round number is incremented and the machine returns to the first
  state of a round.
\<close>

theorem session_end_rule:
  "(deviceRole g = ROLE_SHOOTER \<and> shooterState g = SHOOTER_SHOW_RESULT \<longrightarrow>
      (shooterState (loop t g) = SHOOTER_GAME_OVER \<longleftrightarrow>
         gameOver g \<or> (roundNumber g \<ge> MAX_ROUNDS \<and> roundResultSafe g)) \<and>
      (shooterState (loop t g) = SHOOTER_GAME_OVER \<longrightarrow> roundNumber (loop t g) = roundNumber g) \<and>
      (shooterState (loop t g) \<noteq> SHOOTER_GAME_OVER \<longrightarrow>
         shooterState (loop t g) = SHOOTER_WAIT_DODGER \<and>
         roundNumber (loop t g) = roundNumber g + 1))
   \<and> (deviceRole g = ROLE_DODGER \<and> dodgerState g = DODGER_SHOW_RESULT \<longrightarrow>
      (dodgerState (loop t g) = DODGER_GAME_OVER \<longleftrightarrow>
         gameOver g \<or> (roundNumber g \<ge> MAX_ROUNDS \<and> roundResultSafe g)) \<and>
      (dodgerState (loop t g) = DODGER_GAME_OVER \<longrightarrow> roundNumber (loop t g) = roundNumber g) \<and>
      (dodgerState (loop t g) \<noteq> DODGER_GAME_OVER \<longrightarrow>
         dodgerState (loop t g) = DODGER_WAIT_INPUT \<and>
         roundNumber (loop t g) = roundNumber g + 1))"
  by (simp add: loop_def shooter_show_result_def dodger_show_result_def)

text \<open>
  The rule at two states an execution reaches: the shooter after a first round marked
  safe goes on to round 2, and the dodger after a round marked unsafe ends the session.
\<close>

lemma shooter_safe_round_state:
  "map_option (\<lambda>g. (deviceRole g, shooterState g, roundNumber g, gameOver g, roundResultSafe g))
     (run [OnWrite ''2'', Loop (idle 0), Loop (tap 150 200 1000)] shooter_start)
     = Some (ROLE_SHOOTER, SHOOTER_SHOW_RESULT, 1, False, True)"
  by code_simp

lemma dodger_hit_round_state:
  "map_option (\<lambda>g. (deviceRole g, dodgerState g, roundNumber g, gameOver g, roundResultSafe g))
     (run [Loop (tap 150 200 1000), NotifyCallback ''1'', Loop (idle 1000)] dodger_start)
     = Some (ROLE_DODGER, DODGER_SHOW_RESULT, 1, True, False)"
  by code_simp

theorem session_end_rule_witness:
  "deviceRole (steps [OnWrite ''2'', Loop (idle 0), Loop (tap 150 200 1000)] shooter_start)
     = ROLE_SHOOTER
   \<and> shooterState (steps [OnWrite ''2'', Loop (idle 0), Loop (tap 150 200 1000)] shooter_start)
     = SHOOTER_SHOW_RESULT
   \<and> shooterState (loop (idle 3000)
        (steps [OnWrite ''2'', Loop (idle 0), Loop (tap 150 200 1000)] shooter_start))
     = SHOOTER_WAIT_DODGER
   \<and> roundNumber (loop (idle 3000)
        (steps [OnWrite ''2'', Loop (idle 0), Loop (tap 150 200 1000)] shooter_start))
     = 2
   \<and> deviceRole (steps [Loop (tap 150 200 1000), NotifyCallback ''1'', Loop (idle 1000)]
        dodger_start)
     = ROLE_DODGER
   \<and> dodgerState (steps [Loop (tap 150 200 1000), NotifyCallback ''1'', Loop (idle 1000)]
        dodger_start)
     = DODGER_SHOW_RESULT
   \<and> dodgerState (loop (idle 3000)
        (steps [Loop (tap 150 200 1000), NotifyCallback ''1'', Loop (idle 1000)] dodger_start))
     = DODGER_GAME_OVER
   \<and> roundNumber (loop (idle 3000)
        (steps [Loop (tap 150 200 1000), NotifyCallback ''1'', Loop (idle 1000)] dodger_start))
     = 1"
proof -
  let ?s = "steps [OnWrite ''2'', Loop (idle 0), Loop (tap 150 200 1000)] shooter_start"
  let ?d = "steps [Loop (tap 150 200 1000), NotifyCallback ''1'', Loop (idle 1000)] dodger_start"
  have s: "deviceRole ?s = ROLE_SHOOTER" "shooterState ?s = SHOOTER_SHOW_RESULT"
    "roundNumber ?s = 1" "\<not> gameOver ?s" "roundResultSafe ?s"
    by code_simp+
  have d: "deviceRole ?d = ROLE_DODGER" "dodgerState ?d = DODGER_SHOW_RESULT"
    "roundNumber ?d = 1" "gameOver ?d" "\<not> roundResultSafe ?d"
    by code_simp+
  show ?thesis
    using session_end_rule [of ?s "idle 3000"] session_end_rule [of ?d "idle 3000"] s d
    by (simp add: MAX_ROUNDS_def)
qed


text \<open>
  The round limit is reached too: five rounds in which the shooter shoots the barrel the
  dodger sent are all marked safe, and after the fifth the shooter is on its game-over
  screen in round 5 with \<open>gameOver\<close> false.
\<close>

lemma five_safe_rounds:
  "map_option (\<lambda>g. (roundNumber g, shooterState g, gameOver g, roundResultSafe g,
       gameOverResult (deviceRole g) (roundResultSafe g)))
     (run [OnWrite ''2'', Loop (idle 0), Loop (tap 150 200 1000), Loop (idle 1000),
           OnWrite ''1'', Loop (idle 1000), Loop (tap 50 200 2000), Loop (idle 2000),
           OnWrite ''3'', Loop (idle 2000), Loop (tap 250 200 3000), Loop (idle 3000),
           OnWrite ''2'', Loop (idle 3000), Loop (tap 150 200 4000), Loop (idle 4000),
           OnWrite ''1'', Loop (idle 4000), Loop (tap 50 200 5000), Loop (idle 5000)]
        shooter_start)
     = Some (5, SHOOTER_GAME_OVER, False, True, ''You Lose!'')"
  by code_simp

subsection \<open>The elimination flag is kept\<close>

lemma shooter_loop_keeps_gameOver:
  "gameOver g \<Longrightarrow> \<not> restartPressed (Loop t) g \<Longrightarrow> deviceRole g = ROLE_SHOOTER \<Longrightarrow>
     gameOver (loop t g)"
  by (cases "shooterState g")
    (auto simp: loop_defs restartPressed_def finished_def split: option.splits)

lemma dodger_loop_keeps_gameOver:
  "gameOver g \<Longrightarrow> \<not> restartPressed (Loop t) g \<Longrightarrow> deviceRole g = ROLE_DODGER \<Longrightarrow>
     gameOver (loop t g)"
  by (cases "dodgerState g")
    (auto simp: loop_defs restartPressed_def finished_def split: option.splits)

lemma loop_keeps_gameOver:
  "gameOver g \<Longrightarrow> \<not> restartPressed (Loop t) g \<Longrightarrow> gameOver (loop t g)"
  using shooter_loop_keeps_gameOver [of g t] dodger_loop_keeps_gameOver [of g t]
  by (cases "deviceRole g") (simp_all add: loop_def)

text \<open>
  Claim C6. The elimination flag \<open>gameOver\<close> is monotonic: once it is true, every step of
  the device, a call of \<open>loop()\<close> in any state of either role or any BLE callback, leaves
  it true, except the one step that is the explicit reset, a restart touch accepted on
  the game-over screen (\<open>restartPressed\<close>).
\<close>

theorem gameOver_sticky:
  "gameOver g \<and> \<not> restartPressed e g \<longrightarrow> gameOver (step e g)"
proof (cases e)
  case (Loop t)
  then show ?thesis using loop_keeps_gameOver [of g t] by simp
qed (simp_all add: callback_defs)

text \<open>
  At the dodger on its game-over screen after a lost round: a touch outside the restart
  button is no reset, and the flag stays set.
\<close>

theorem gameOver_sticky_witness:
  "gameOver (steps [Loop (tap 150 200 1000), NotifyCallback ''1'', Loop (idle 1000),
       Loop (idle 3000)] dodger_start)
   \<and> \<not> restartPressed (Loop (tap 5 5 5000))
       (steps [Loop (tap 150 200 1000), NotifyCallback ''1'', Loop (idle 1000),
          Loop (idle 3000)] dodger_start)
   \<and> gameOver (step (Loop (tap 5 5 5000))
       (steps [Loop (tap 150 200 1000), NotifyCallback ''1'', Loop (idle 1000),
          Loop (idle 3000)] dodger_start))"
proof -
  let ?d = "steps [Loop (tap 150 200 1000), NotifyCallback ''1'', Loop (idle 1000),
       Loop (idle 3000)] dodger_start"
  have over: "gameOver ?d"
    by code_simp
  have no_restart: "\<not> restartPressed (Loop (tap 5 5 5000)) ?d"
    by code_simp
  show ?thesis
    using gameOver_sticky [of ?d "Loop (tap 5 5 5000)"] over no_restart by simp
qed

subsection \<open>Sending with no peer\<close>

lemma shooter_send_dropped:
  "loop t (g\<lparr> deviceConnected := False \<rparr>) =
     (loop t (g\<lparr> deviceConnected := True \<rparr>))
       \<lparr> deviceConnected := False, notified := notified g \<rparr>"
proof (cases "deviceRole g")
  case ROLE_SHOOTER
  then show ?thesis
    by (cases "shooterState g")
      (simp_all add: loop_defs acceptedTouch_def split: option.splits)
next
  case ROLE_DODGER
  then show ?thesis
    by (cases "dodgerState g")
      (simp_all add: loop_defs acceptedTouch_def split: option.splits)
qed (simp add: loop_def)

lemma dodger_send_dropped:
  "loop t (g\<lparr> remoteCharPresent := False \<rparr>) =
     (loop t (g\<lparr> remoteCharPresent := True \<rparr>))
       \<lparr> remoteCharPresent := False, written := written g \<rparr>"
proof (cases "deviceRole g")
  case ROLE_SHOOTER
  then show ?thesis
    by (cases "shooterState g")
      (simp_all add: loop_defs acceptedTouch_def split: option.splits)
next
  case ROLE_DODGER
  then show ?thesis
    by (cases "dodgerState g")
      (simp_all add: loop_defs acceptedTouch_def split: option.splits)
qed (simp add: loop_def)

text \<open>
  Claim C8. A send attempted with no peer is dropped silently and the state machine goes
  on as in the connected case. For the shooter: \<open>loop()\<close> run with \<open>deviceConnected\<close>
  false gives the state that \<open>loop()\<close> gives with \<open>deviceConnected\<close> true, but for the
  flag itself and the list of notified values, which stays as it was. For the dodger the
  same holds of the handle \<open>pRemoteCharacteristic\<close> and the list of written values. So
  the transition and every recorded round datum are the same whether or not the message
  was handed to the channel.
\<close>

theorem send_dropped_when_disconnected:
  "loop t (g\<lparr> deviceConnected := False \<rparr>) =
     (loop t (g\<lparr> deviceConnected := True \<rparr>))
       \<lparr> deviceConnected := False, notified := notified g \<rparr>
   \<and> notified (loop t (g\<lparr> deviceConnected := False \<rparr>)) = notified g
   \<and> loop t (g\<lparr> remoteCharPresent := False \<rparr>) =
     (loop t (g\<lparr> remoteCharPresent := True \<rparr>))
       \<lparr> remoteCharPresent := False, written := written g \<rparr>
   \<and> written (loop t (g\<lparr> remoteCharPresent := False \<rparr>)) = written g"
proof -
  have a: "notified (loop t (g\<lparr> deviceConnected := False \<rparr>)) = notified g"
    by (subst shooter_send_dropped) simp
  have b: "written (loop t (g\<lparr> remoteCharPresent := False \<rparr>)) = written g"
    by (subst dodger_send_dropped) simp
  show ?thesis
    using a b shooter_send_dropped [of t g] dodger_send_dropped [of t g] by simp
qed

text \<open>
  A send that is really attempted: the shooter picks barrel 1 against the dodger's 2.
  Connected, the device notifies "1"; disconnected, it notifies nothing; both end in
  \<open>SHOOTER_SHOW_RESULT\<close> with the same choice and the same flags.
\<close>

theorem send_dropped_when_disconnected_witness:
  "map_option (\<lambda>g. (shooterState g, shooterChoice g, roundResultSafe g, gameOver g, notified g))
     (run [OnWrite ''2'', Loop (idle 0), OnConnect, Loop (tap 50 200 1000)] shooter_start)
     = Some (SHOOTER_SHOW_RESULT, 1, False, True, [''1''])
   \<and> map_option (\<lambda>g. (shooterState g, shooterChoice g, roundResultSafe g, gameOver g, notified g))
     (run [OnWrite ''2'', Loop (idle 0), OnDisconnect, Loop (tap 50 200 1000)] shooter_start)
     = Some (SHOOTER_SHOW_RESULT, 1, False, True, [])
   \<and> loop (tap 50 200 1000)
       ((steps [OnWrite ''2'', Loop (idle 0)] shooter_start)\<lparr> deviceConnected := False \<rparr>)
     = (loop (tap 50 200 1000)
         ((steps [OnWrite ''2'', Loop (idle 0)] shooter_start)\<lparr> deviceConnected := True \<rparr>))
       \<lparr> deviceConnected := False,
         notified := notified (steps [OnWrite ''2'', Loop (idle 0)] shooter_start) \<rparr>"
proof -
  have runs:
    "map_option (\<lambda>g. (shooterState g, shooterChoice g, roundResultSafe g, gameOver g, notified g))
       (run [OnWrite ''2'', Loop (idle 0), OnConnect, Loop (tap 50 200 1000)] shooter_start)
       = Some (SHOOTER_SHOW_RESULT, 1, False, True, [''1''])"
    "map_option (\<lambda>g. (shooterState g, shooterChoice g, roundResultSafe g, gameOver g, notified g))
       (run [OnWrite ''2'', Loop (idle 0), OnDisconnect, Loop (tap 50 200 1000)] shooter_start)
       = Some (SHOOTER_SHOW_RESULT, 1, False, True, [])"
    by code_simp+
  show ?thesis
    using runs
      send_dropped_when_disconnected
        [of "tap 50 200 1000" "steps [OnWrite ''2'', Loop (idle 0)] shooter_start"]
    by simp
qed


subsection \<open>The verdict on the game-over screen\<close>

text \<open>No step changes the role of the device.\<close>

lemma loop_deviceRole: "deviceRole (loop t g) = deviceRole g"
proof (cases "deviceRole g")
  case ROLE_SHOOTER
  then show ?thesis
    by (cases "shooterState g") (simp_all add: loop_defs split: option.splits)
next
  case ROLE_DODGER
  then show ?thesis
    by (cases "dodgerState g") (simp_all add: loop_defs split: option.splits)
qed (simp add: loop_def)

lemma step_deviceRole: "deviceRole (step e g) = deviceRole g"
  by (cases e) (simp_all add: loop_deviceRole callback_defs)

lemma run_deviceRole: "run es g = Some g' \<Longrightarrow> deviceRole g' = deviceRole g"
  by (induction es arbitrary: g) (simp_all add: step_deviceRole split: if_splits)

lemma setup_deviceRole: "deviceRole (setup_state role connected found t0) = role"
  by (simp add: setup_state_def resetGame_def globals_init_def)

lemma sample_games:
  "run dodger_lost_game dodger_start = Some (steps dodger_lost_game dodger_start)"
  "dodgerState (steps dodger_lost_game dodger_start) = DODGER_GAME_OVER"
  "deviceRole (steps dodger_lost_game dodger_start) = ROLE_DODGER"
  "gameOver (steps dodger_lost_game dodger_start)"
  "\<not> roundResultSafe (steps dodger_lost_game dodger_start)"
  "run shooter_won_game shooter_start = Some (steps shooter_won_game shooter_start)"
  "shooterState (steps shooter_won_game shooter_start) = SHOOTER_GAME_OVER"
  "deviceRole (steps shooter_won_game shooter_start) = ROLE_SHOOTER"
  "gameOver (steps shooter_won_game shooter_start)"
  "\<not> roundResultSafe (steps shooter_won_game shooter_start)"
  by code_simp+

text \<open>
  Claim C3. On a dodger that has reached its game-over screen the verdict shown is
  "You Lose!" exactly when \<open>gameOver\<close> (the elimination flag) is set and "You Win!"
  exactly when it is not. On a shooter that has reached its game-over screen the sense is
  inverted: "You Win!" when the flag is set, "You Lose!" when it is not. So whenever the
  two devices hold the same value of the flag, they show different verdicts: exactly one
  side wins.
\<close>

theorem verdicts_follow_elimination:
  assumes "run ds (setup_state ROLE_DODGER cd fd td) = Some gd"
    and "dodgerState gd = DODGER_GAME_OVER"
    and "run ss (setup_state ROLE_SHOOTER cs fs ts) = Some gs"
    and "shooterState gs = SHOOTER_GAME_OVER"
  shows "gameOverResult (deviceRole gd) (roundResultSafe gd) =
           (if gameOver gd then ''You Lose!'' else ''You Win!'')
    \<and> gameOverResult (deviceRole gs) (roundResultSafe gs) =
           (if gameOver gs then ''You Win!'' else ''You Lose!'')
    \<and> (gameOver gd = gameOver gs \<longrightarrow>
         gameOverResult (deviceRole gd) (roundResultSafe gd) \<noteq>
         gameOverResult (deviceRole gs) (roundResultSafe gs))"
proof -
  have rd: "deviceRole gd = ROLE_DODGER"
    using run_deviceRole [OF assms(1)] by (simp add: setup_deviceRole)
  have rs: "deviceRole gs = ROLE_SHOOTER"
    using run_deviceRole [OF assms(3)] by (simp add: setup_deviceRole)
  have "round_inv gd"
    using run_round_inv [OF setup_round_inv assms(1)] .
  then have d: "gameOver gd = (\<not> roundResultSafe gd)"
    using rd assms(2) by (auto simp: phase_defs)
  have "round_inv gs"
    using run_round_inv [OF setup_round_inv assms(3)] .
  then have s: "gameOver gs = (\<not> roundResultSafe gs)"
    using rs assms(4) by (auto simp: phase_defs)
  show ?thesis
    by (simp add: rd rs d s gameOverResult_def)
qed

theorem verdicts_follow_elimination_witness:
  "run dodger_lost_game (setup_state ROLE_DODGER False True 0)
     = Some (steps dodger_lost_game dodger_start)
   \<and> dodgerState (steps dodger_lost_game dodger_start) = DODGER_GAME_OVER
   \<and> run shooter_won_game (setup_state ROLE_SHOOTER True False 0)
     = Some (steps shooter_won_game shooter_start)
   \<and> shooterState (steps shooter_won_game shooter_start) = SHOOTER_GAME_OVER
   \<and> gameOver (steps dodger_lost_game dodger_start)
   \<and> gameOver (steps shooter_won_game shooter_start)
   \<and> gameOverResult (deviceRole (steps dodger_lost_game dodger_start))
        (roundResultSafe (steps dodger_lost_game dodger_start)) = ''You Lose!''
   \<and> gameOverResult (deviceRole (steps shooter_won_game shooter_start))
        (roundResultSafe (steps shooter_won_game shooter_start)) = ''You Win!''"
proof -
  have d: "run dodger_lost_game (setup_state ROLE_DODGER False True 0)
      = Some (steps dodger_lost_game dodger_start)"
    using sample_games(1) by (simp add: dodger_start_def)
  have s: "run shooter_won_game (setup_state ROLE_SHOOTER True False 0)
      = Some (steps shooter_won_game shooter_start)"
    using sample_games(6) by (simp add: shooter_start_def)
  show ?thesis
    using verdicts_follow_elimination [OF d sample_games(2) s sample_games(7)]
      d s sample_games(2,4,7,9)
    by simp
qed

text \<open>
  Claim C10. In every state an execution reaches, \<open>gameOver\<close> implies that
  \<open>roundResultSafe\<close> is false: the flag is only ever set together with marking the round
  unsafe. On the game-over screen of either role the verdict, which
  \<open>drawGameOverScreen\<close> computes from \<open>roundResultSafe\<close>, is therefore the verdict computed
  from the elimination flag.
\<close>

theorem gameOver_implies_unsafe:
  assumes "run es (setup_state role connected found t0) = Some g"
  shows "(gameOver g \<longrightarrow> \<not> roundResultSafe g)
    \<and> (finished g \<longrightarrow>
         gameOverResult (deviceRole g) (roundResultSafe g) =
         gameOverResult (deviceRole g) (\<not> gameOver g))"
proof -
  have inv: "round_inv g"
    using run_round_inv [OF setup_round_inv assms] .
  then have a: "gameOver g \<longrightarrow> \<not> roundResultSafe g"
    by (simp add: round_inv_def)
  have "finished g \<longrightarrow> roundResultSafe g = (\<not> gameOver g)"
    using inv by (auto simp: round_inv_def)
  then show ?thesis using a by auto
qed

theorem gameOver_implies_unsafe_witness:
  "run dodger_lost_game (setup_state ROLE_DODGER False True 0)
     = Some (steps dodger_lost_game dodger_start)
   \<and> gameOver (steps dodger_lost_game dodger_start)
   \<and> finished (steps dodger_lost_game dodger_start)
   \<and> \<not> roundResultSafe (steps dodger_lost_game dodger_start)
   \<and> gameOverResult (deviceRole (steps dodger_lost_game dodger_start))
        (roundResultSafe (steps dodger_lost_game dodger_start))
      = gameOverResult (deviceRole (steps dodger_lost_game dodger_start))
        (\<not> gameOver (steps dodger_lost_game dodger_start))"
proof -
  have d: "run dodger_lost_game (setup_state ROLE_DODGER False True 0)
      = Some (steps dodger_lost_game dodger_start)"
    using sample_games(1) by (simp add: dodger_start_def)
  have f: "finished (steps dodger_lost_game dodger_start)"
    using sample_games(2,3) by (simp add: finished_def)
  show ?thesis
    using gameOver_implies_unsafe [OF d] d f sample_games(4) by simp
qed

subsection \<open>The order of the exchange\<close>

text \<open>
  Every selection the shooter accepts uses up one pending choice, and only a delivery
  from the dodger creates one.
\<close>

lemma shooter_loop_pending:
  "deviceRole g = ROLE_SHOOTER \<Longrightarrow>
     (if shooterAccepts (Loop t) g then 1 else 0) + shooterPending (loop t g) \<le> shooterPending g"
  by (cases "shooterState g")
    (simp_all add: shooterAccepts_def shooterPending_def loop_defs split: option.splits)

lemma other_loop_pending:
  "deviceRole g \<noteq> ROLE_SHOOTER \<Longrightarrow>
     (if shooterAccepts (Loop t) g then 1 else 0) + shooterPending (loop t g) \<le> shooterPending g"
proof (cases "deviceRole g")
  case ROLE_DODGER
  then show ?thesis
    by (cases "dodgerState g")
      (simp_all add: shooterAccepts_def shooterPending_def loop_defs split: option.splits)
qed (simp_all add: shooterAccepts_def shooterPending_def loop_def)

lemma step_pending:
  "(if shooterAccepts e g then 1 else 0) + shooterPending (step e g)
     \<le> (if delivers e then 1 else 0) + shooterPending g"
proof (cases e)
  case (Loop t)
  then show ?thesis
    using shooter_loop_pending [of g t] other_loop_pending [of g t]
    by (cases "deviceRole g = ROLE_SHOOTER") simp_all
qed (auto simp: shooterAccepts_def shooterPending_def callback_defs)

lemma steps_pending:
  "acceptedSelections es g + shooterPending (steps es g) \<le> receivedChoices es + shooterPending g"
proof (induction es arbitrary: g)
  case Nil
  show ?case by simp
next
  case (Cons e es)
  have "acceptedSelections (e # es) g + shooterPending (steps (e # es) g)
      = (if shooterAccepts e g then 1 else 0)
        + (acceptedSelections es (step e g) + shooterPending (steps es (step e g)))"
    by simp
  also have "\<dots> \<le> (if shooterAccepts e g then 1 else 0)
        + (receivedChoices es + shooterPending (step e g))"
    using Cons.IH [of "step e g"] by simp
  also have "\<dots> \<le> receivedChoices (e # es) + shooterPending g"
    using step_pending [of e g] by simp
  finally show ?case .
qed

lemma setup_pending: "shooterPending (setup_state role connected found t0) = 0"
  by (simp add: shooterPending_def setup_state_def resetGame_def globals_init_def)

lemma accepted_le_received:
  "acceptedSelections es (setup_state role connected found t0) \<le> receivedChoices es"
  using steps_pending [of es "setup_state role connected found t0"]
  by (simp add: setup_pending)

text \<open>
  With the handle present the dodger sends in the step that makes it wait, so every shot
  it observes is paid for by a message it sent.
\<close>

lemma loop_remoteCharPresent: "remoteCharPresent (loop t g) = remoteCharPresent g"
proof (cases "deviceRole g")
  case ROLE_SHOOTER
  then show ?thesis
    by (cases "shooterState g") (simp_all add: loop_defs split: option.splits)
next
  case ROLE_DODGER
  then show ?thesis
    by (cases "dodgerState g") (simp_all add: loop_defs split: option.splits)
qed (simp add: loop_def)

lemma step_remoteCharPresent: "remoteCharPresent (step e g) = remoteCharPresent g"
  by (cases e) (simp_all add: loop_remoteCharPresent callback_defs)

lemma dodger_loop_waiting:
  "remoteCharPresent g \<Longrightarrow> deviceRole g = ROLE_DODGER \<Longrightarrow>
     (if dodgerObserves (Loop t) g then 1 else 0) + dodgerWaiting (loop t g) + length (written g)
       \<le> length (written (loop t g)) + dodgerWaiting g"
  by (cases "dodgerState g")
    (simp_all add: dodgerObserves_def dodgerWaiting_def loop_defs split: option.splits)

lemma other_loop_waiting:
  "deviceRole g \<noteq> ROLE_DODGER \<Longrightarrow>
     (if dodgerObserves (Loop t) g then 1 else 0) + dodgerWaiting (loop t g) + length (written g)
       \<le> length (written (loop t g)) + dodgerWaiting g"
proof (cases "deviceRole g")
  case ROLE_SHOOTER
  then show ?thesis
    by (cases "shooterState g")
      (simp_all add: dodgerObserves_def dodgerWaiting_def loop_defs split: option.splits)
qed (simp_all add: dodgerObserves_def dodgerWaiting_def loop_def)

lemma step_waiting:
  "remoteCharPresent g \<Longrightarrow>
     (if dodgerObserves e g then 1 else 0) + dodgerWaiting (step e g) + length (written g)
       \<le> length (written (step e g)) + dodgerWaiting g"
proof (cases e)
  case (Loop t)
  assume "remoteCharPresent g"
  then show ?thesis
    using Loop dodger_loop_waiting [of g t] other_loop_waiting [of g t]
    by (cases "deviceRole g = ROLE_DODGER") simp_all
qed (auto simp: dodgerObserves_def dodgerWaiting_def callback_defs)

lemma steps_waiting:
  "remoteCharPresent g \<Longrightarrow>
     observedShots es g + dodgerWaiting (steps es g) + length (written g)
       \<le> length (written (steps es g)) + dodgerWaiting g"
proof (induction es arbitrary: g)
  case Nil
  show ?case by simp
next
  case (Cons e es)
  have p: "remoteCharPresent (step e g)"
    using Cons.prems by (simp add: step_remoteCharPresent)
  have "observedShots (e # es) g + dodgerWaiting (steps (e # es) g) + length (written g)
      = (if dodgerObserves e g then 1 else 0) + length (written g)
        + (observedShots es (step e g) + dodgerWaiting (steps es (step e g)))"
    by simp
  also have "\<dots> + length (written (step e g))
      \<le> (if dodgerObserves e g then 1 else 0) + length (written g)
        + (length (written (steps es (step e g))) + dodgerWaiting (step e g))"
    using Cons.IH [OF p] by simp
  also have "\<dots> \<le> length (written (step e g))
        + (length (written (steps (e # es) g)) + dodgerWaiting g)"
    using step_waiting [OF Cons.prems, of e] by simp
  finally show ?case by simp
qed

text \<open>With no handle no notification ever arrives, so nothing is observed.\<close>

lemma loop_no_notification:
  "\<not> notificationReceived g \<Longrightarrow>
     \<not> notificationReceived (loop t g) \<and> \<not> dodgerObserves (Loop t) g"
proof (cases "deviceRole g")
  case ROLE_SHOOTER
  assume "\<not> notificationReceived g"
  then show ?thesis
    using ROLE_SHOOTER
    by (cases "shooterState g")
      (simp_all add: dodgerObserves_def loop_defs split: option.splits)
next
  case ROLE_DODGER
  assume "\<not> notificationReceived g"
  then show ?thesis
    using ROLE_DODGER
    by (cases "dodgerState g")
      (simp_all add: dodgerObserves_def loop_defs split: option.splits)
qed (simp_all add: dodgerObserves_def loop_def)

lemma step_no_notification:
  "\<not> remoteCharPresent g \<Longrightarrow> \<not> notificationReceived g \<Longrightarrow> enabled e g \<Longrightarrow>
     \<not> notificationReceived (step e g) \<and> \<not> dodgerObserves e g"
proof (cases e)
  case (Loop t)
  assume "\<not> notificationReceived g"
  then show ?thesis using Loop loop_no_notification [of g t] by simp
qed (auto simp: dodgerObserves_def callback_defs)

lemma run_no_notification:
  "\<not> remoteCharPresent g \<Longrightarrow> \<not> notificationReceived g \<Longrightarrow> run es g = Some g' \<Longrightarrow>
     observedShots es g = 0"
proof (induction es arbitrary: g)
  case Nil
  show ?case by simp
next
  case (Cons e es)
  from Cons.prems(3) have en: "enabled e g" and r: "run es (step e g) = Some g'"
    by (simp_all split: if_splits)
  have st: "\<not> notificationReceived (step e g)" "\<not> dodgerObserves e g"
    using step_no_notification [OF Cons.prems(1,2) en] by simp_all
  have "\<not> remoteCharPresent (step e g)"
    using Cons.prems(1) by (simp add: step_remoteCharPresent)
  from Cons.IH [OF this st(1) r] st(2) show ?case by simp
qed

lemma setup_channel:
  "written (setup_state role connected found t0) = []
   \<and> dodgerWaiting (setup_state role connected found t0) = 0
   \<and> \<not> notificationReceived (setup_state role connected found t0)"
  by (simp add: dodgerWaiting_def setup_state_def resetGame_def globals_init_def)

lemma observed_le_written:
  assumes "run es (setup_state role connected found t0) = Some g"
  shows "observedShots es (setup_state role connected found t0) \<le> length (written g)"
proof (cases "remoteCharPresent (setup_state role connected found t0)")
  case True
  have "g = steps es (setup_state role connected found t0)"
    using assms by (rule run_steps)
  then show ?thesis
    using steps_waiting [OF True, of es] by (simp add: setup_channel)
next
  case False
  then show ?thesis
    using run_no_notification [OF False _ assms] by (simp add: setup_channel)
qed

lemma dodger_sends_on_entry:
  "deviceRole h = ROLE_DODGER \<and> remoteCharPresent h \<and> dodgerState h \<noteq> DODGER_WAIT_SHOT \<and>
     dodgerState (loop t h) = DODGER_WAIT_SHOT \<longrightarrow>
   written (loop t h) = written h @ [sprintf_d (dodgerChoice (loop t h))]"
  by (cases "dodgerState h") (auto simp: loop_defs split: option.splits if_splits)

text \<open>
  Claim C5 says that in every execution the shooter accepts its own selection for a round
  only after the dodger's choice for that round was received, and that the dodger sends
  its choice before it enters the state that can observe the shooter's choice. The second
  part fails when \<open>pRemoteCharacteristic\<close> is null: the dodger then enters
  \<open>DODGER_WAIT_SHOT\<close> and has sent nothing (lines 284 to 291).
\<close>

theorem dodger_waits_without_sending:
  "deviceRole (setup_state ROLE_DODGER False False 0) = ROLE_DODGER
   \<and> dodgerState (setup_state ROLE_DODGER False False 0) = DODGER_WAIT_INPUT
   \<and> dodgerState (loop (tap 50 200 1000) (setup_state ROLE_DODGER False False 0))
     = DODGER_WAIT_SHOT
   \<and> dodgerChoice (loop (tap 50 200 1000) (setup_state ROLE_DODGER False False 0)) = 1
   \<and> written (loop (tap 50 200 1000) (setup_state ROLE_DODGER False False 0)) = []"
  by code_simp

text \<open>
  Claim C5, amended. In every execution from the end of \<open>setup()\<close>: the number of
  selections the shooter has accepted never exceeds the number of choices delivered to it,
  so its k-th selection is accepted only after k choices of the dodger were received;
  the number of shots the dodger has observed never exceeds the number of choices it has
  written to the channel; and a dodger whose handle is present writes its choice in the
  very step that takes it into \<open>DODGER_WAIT_SHOT\<close>. (A dodger whose handle is null enters
  that state without sending, and then never observes a shot.)
\<close>

theorem initiator_commits_first:
  assumes "run es (setup_state role connected found t0) = Some g"
  shows "acceptedSelections es (setup_state role connected found t0) \<le> receivedChoices es
    \<and> observedShots es (setup_state role connected found t0) \<le> length (written g)
    \<and> (deviceRole h = ROLE_DODGER \<and> remoteCharPresent h \<and>
        dodgerState h \<noteq> DODGER_WAIT_SHOT \<and> dodgerState (loop t h) = DODGER_WAIT_SHOT \<longrightarrow>
          written (loop t h) = written h @ [sprintf_d (dodgerChoice (loop t h))])"
  using accepted_le_received [of es role connected found t0]
    observed_le_written [OF assms] dodger_sends_on_entry [of h t]
  by simp

lemma sample_exchange:
  "acceptedSelections shooter_won_game shooter_start = 1"
  "receivedChoices shooter_won_game = 1"
  "observedShots dodger_lost_game dodger_start = 1"
  "written (steps dodger_lost_game dodger_start) = [''2'']"
  "deviceRole dodger_start = ROLE_DODGER"
  "remoteCharPresent dodger_start"
  "dodgerState dodger_start = DODGER_WAIT_INPUT"
  "dodgerState (loop (tap 50 200 1000) dodger_start) = DODGER_WAIT_SHOT"
  "written dodger_start = []"
  "written (loop (tap 50 200 1000) dodger_start) = [''1'']"
  "sprintf_d (dodgerChoice (loop (tap 50 200 1000) dodger_start)) = ''1''"
  by code_simp+

theorem initiator_commits_first_witness:
  "run shooter_won_game (setup_state ROLE_SHOOTER True False 0)
     = Some (steps shooter_won_game shooter_start)
   \<and> acceptedSelections shooter_won_game shooter_start = 1
   \<and> receivedChoices shooter_won_game = 1
   \<and> run dodger_lost_game (setup_state ROLE_DODGER False True 0)
     = Some (steps dodger_lost_game dodger_start)
   \<and> observedShots dodger_lost_game dodger_start = 1
   \<and> length (written (steps dodger_lost_game dodger_start)) = 1
   \<and> deviceRole dodger_start = ROLE_DODGER
   \<and> remoteCharPresent dodger_start
   \<and> dodgerState dodger_start \<noteq> DODGER_WAIT_SHOT
   \<and> dodgerState (loop (tap 50 200 1000) dodger_start) = DODGER_WAIT_SHOT
   \<and> written (loop (tap 50 200 1000) dodger_start) = written dodger_start @ [''1'']"
proof -
  have d: "run dodger_lost_game (setup_state ROLE_DODGER False True 0)
      = Some (steps dodger_lost_game dodger_start)"
    using sample_games(1) by (simp add: dodger_start_def)
  have s: "run shooter_won_game (setup_state ROLE_SHOOTER True False 0)
      = Some (steps shooter_won_game shooter_start)"
    using sample_games(6) by (simp add: shooter_start_def)
  show ?thesis
    using initiator_commits_first [OF s, of dodger_start "tap 50 200 1000"]
      initiator_commits_first [OF d, of dodger_start "tap 50 200 1000"]
      d s sample_exchange
    by simp
qed

subsection \<open>A touch outside the buttons\<close>

text \<open>
  Claim C7 says that a touch outside the three barrel buttons is ignored in every round:
  no choice recorded, nothing sent, no transition. The code tests the choice variable
  after the rectangle tests (lines 206 and 280), and the variable still holds the choice
  of the round before; only \<open>resetGame\<close> clears it. Evaluated on the program, the tuple
  listing \<open>roundNumber\<close>, the state, the choice and the values sent: in round 1 a click at
  (5, 5) is ignored; after a first round in which the dodger hid in barrel 2, the same
  click in round 2 is taken as barrel 2 again, "2" is written to the channel and the dodger
  moves to \<open>DODGER_WAIT_SHOT\<close>. On the shooter the same click in round 2 shoots barrel 2
  again, notifies "2" and, against the dodger's new choice 1, sets \<open>gameOver\<close>.
\<close>

theorem stale_choice_passes_guard:
  "map_option (\<lambda>g. (roundNumber g, dodgerState g, dodgerChoice g, written g))
     (run [Loop (tap 5 5 1000)] dodger_start)
     = Some (1, DODGER_WAIT_INPUT, 0, [])
   \<and> map_option (\<lambda>g. (roundNumber g, dodgerState g, dodgerChoice g, written g))
     (run [Loop (tap 150 200 1000), NotifyCallback ''2'', Loop (idle 1000), Loop (idle 3000)]
        dodger_start)
     = Some (2, DODGER_WAIT_INPUT, 2, [''2''])
   \<and> map_option (\<lambda>g. (roundNumber g, dodgerState g, dodgerChoice g, written g))
     (run [Loop (tap 150 200 1000), NotifyCallback ''2'', Loop (idle 1000), Loop (idle 3000),
           Loop (tap 5 5 5000)]
        dodger_start)
     = Some (2, DODGER_WAIT_SHOT, 2, [''2'', ''2''])
   \<and> map_option (\<lambda>g. (roundNumber g, shooterState g, shooterChoice g, notified g, gameOver g))
     (run [OnWrite ''2'', Loop (idle 0), Loop (tap 150 200 1000), Loop (idle 3000),
           OnWrite ''1'', Loop (idle 4000), Loop (tap 5 5 5000)]
        shooter_start)
     = Some (2, SHOOTER_SHOW_RESULT, 2, [''2'', ''2''], True)"
  by code_simp


section \<open>The wire format\<close>














section \<open>Inbound messages\<close>





end
